theory Spec2Isabelle
  imports Complex_Main
begin

section \<open>The ILP model built by \<open>ilp_graph_coloring\<close>\<close>

text \<open>
  The program \<^verbatim>\<open>ilp_peterson.py\<close> consists of one function,
  \<^verbatim>\<open>ilp_graph_coloring(n, edges)\<close>, and a call of it on the Petersen graph.
  The function creates the variables of an integer linear program through the MIP
  package, registers the objective and two families of constraints, calls the solver
  and prints what the solver reports when the status is \<^verbatim>\<open>OPTIMAL\<close>.

  A variable handle is the position of the variable in \<^verbatim>\<open>model.vars\<close>: the k-th call
  of \<^verbatim>\<open>model.add_var\<close> returns variable number k (printed as \<^verbatim>\<open>var(k)\<close>). Every
  variable of this program is created with \<^verbatim>\<open>var_type=BINARY\<close>.
\<close>

type_synonym var = nat

text \<open>
  The two shapes of constraint the source registers: \<^verbatim>\<open>xsum(...) == 1\<close> and
  \<^verbatim>\<open>a + b <= c\<close>. A sum is the list of its terms, each a variable with coefficient 1;
  a variable that is listed twice has coefficient 2.
\<close>

datatype constr =
  SumEq "var list" int
| SumLe "var list" var

text \<open>
  The expression \<^verbatim>\<open>a + b\<close> of two variables is built by the MIP package, which is not
  part of the source. For two different variables it is the sum of both. For a variable
  added to itself the source does not fix the result: the package keeps a linear
  expression as a dictionary from variables to coefficients, and either the two
  coefficients are added (\<open>2 * a\<close>) or the second entry replaces the first (\<open>a\<close>).
  Which of the two the installed package does is a parameter of the model.
\<close>

datatype sum_rule = Add_Coefficients | Keep_One

definition var_plus :: "sum_rule \<Rightarrow> var \<Rightarrow> var \<Rightarrow> var list" where
  "var_plus pkg a b = (if a = b \<and> pkg = Keep_One then [a] else [a, b])"

record model =
  num_vars :: nat
  objective :: "var list"
  constrs :: "constr list"

text \<open>The only exception the function's own code can raise: a list index out of range.\<close>

datatype py_error = IndexError

definition Model :: model where
  "Model = \<lparr>num_vars = 0, objective = [], constrs = []\<rparr>"

definition add_var :: "model \<Rightarrow> var \<times> model" where
  "add_var m = (num_vars m, m\<lparr>num_vars := Suc (num_vars m)\<rparr>)"

text \<open>\<^verbatim>\<open>range(n)\<close> for a Python integer \<open>n\<close>; it is empty when \<open>n \<le> 0\<close>.\<close>

definition py_range :: "int \<Rightarrow> nat list" where
  "py_range n = [0..<nat n]"

text \<open>
  \<^verbatim>\<open>[model.add_var(var_type=BINARY) for i in range(n)]\<close>: one new variable for each
  element of the list that is iterated.
\<close>

fun add_var_row :: "nat list \<Rightarrow> model \<Rightarrow> var list \<times> model" where
  "add_var_row [] m = ([], m)"
| "add_var_row (i # is) m =
     (case add_var m of (v, m1) \<Rightarrow>
        (case add_var_row is m1 of (vs, m2) \<Rightarrow> (v # vs, m2)))"

text \<open>\<^verbatim>\<open>[[model.add_var(var_type=BINARY) for j in range(n)] for i in range(n)]\<close>\<close>

fun add_var_grid :: "nat list \<Rightarrow> nat list \<Rightarrow> model \<Rightarrow> var list list \<times> model" where
  "add_var_grid [] js m = ([], m)"
| "add_var_grid (i # is) js m =
     (case add_var_row js m of (row, m1) \<Rightarrow>
        (case add_var_grid is js m1 of (rows, m2) \<Rightarrow> (row # rows, m2)))"

text \<open>\<^verbatim>\<open>model += constraint\<close> appends to the constraint list.\<close>

definition add_constr :: "constr \<Rightarrow> model \<Rightarrow> model" where
  "add_constr c m = m\<lparr>constrs := constrs m @ [c]\<rparr>"

text \<open>
  Python's \<^verbatim>\<open>xs[i]\<close> for an integer \<open>i\<close>: an index in \<open>[-len, -1]\<close> counts from the
  end, an index in \<open>[0, len)\<close> from the front, anything else raises IndexError.
\<close>

definition py_index :: "'a list \<Rightarrow> int \<Rightarrow> py_error + 'a" where
  "py_index xs i =
     (if 0 \<le> i \<and> i < int (length xs) then Inr (xs ! nat i)
      else if - int (length xs) \<le> i \<and> i < 0 then Inr (xs ! nat (int (length xs) + i))
      else Inl IndexError)"

text \<open>
  The first constraint loop:
  \<^verbatim>\<open>for i in range(n): model += xsum(x[i][j] for j in range(n)) == 1\<close>.
  Both indices come from \<^verbatim>\<open>range(n)\<close> and the grid is n by n, so no index is out
  of range here.
\<close>

definition assignment_constr :: "var list list \<Rightarrow> int \<Rightarrow> nat \<Rightarrow> constr" where
  "assignment_constr x n i = SumEq (map (\<lambda>j. x ! i ! j) (py_range n)) 1"

definition add_assignment_constrs :: "var list list \<Rightarrow> int \<Rightarrow> model \<Rightarrow> model" where
  "add_assignment_constrs x n m = fold (\<lambda>i. add_constr (assignment_constr x n i)) (py_range n) m"

text \<open>
  The second constraint loop:
  \<^verbatim>\<open>for k in range(n): for (i, j) in edges: model += x[i][k] + x[j][k] <= w[k]\<close>.
  The endpoints \<open>i\<close> and \<open>j\<close> come from the caller, so \<^verbatim>\<open>x[i]\<close> and \<^verbatim>\<open>x[j]\<close> are
  Python index operations that may raise; \<open>k\<close> comes from \<^verbatim>\<open>range(n)\<close> and is in
  range of every row and of \<open>w\<close>. The first exception ends the function.
\<close>

definition conflict_constr ::
  "sum_rule \<Rightarrow> var list list \<Rightarrow> var list \<Rightarrow> nat \<Rightarrow> int \<times> int \<Rightarrow> py_error + constr" where
  "conflict_constr pkg x w k e =
     (case py_index x (fst e) of
        Inl err \<Rightarrow> Inl err
      | Inr xi \<Rightarrow>
          (case py_index x (snd e) of
             Inl err \<Rightarrow> Inl err
           | Inr xj \<Rightarrow> Inr (SumLe (var_plus pkg (xi ! k) (xj ! k)) (w ! k))))"

fun conflict_edges ::
  "sum_rule \<Rightarrow> var list list \<Rightarrow> var list \<Rightarrow> nat \<Rightarrow> (int \<times> int) list \<Rightarrow> model \<Rightarrow> py_error + model" where
  "conflict_edges pkg x w k [] m = Inr m"
| "conflict_edges pkg x w k (e # es) m =
     (case conflict_constr pkg x w k e of
        Inl err \<Rightarrow> Inl err
      | Inr c \<Rightarrow> conflict_edges pkg x w k es (add_constr c m))"

fun conflict_colors ::
  "sum_rule \<Rightarrow> var list list \<Rightarrow> var list \<Rightarrow> (int \<times> int) list \<Rightarrow> nat list \<Rightarrow> model \<Rightarrow> py_error + model" where
  "conflict_colors pkg x w edges [] m = Inr m"
| "conflict_colors pkg x w edges (k # ks) m =
     (case conflict_edges pkg x w k edges m of
        Inl err \<Rightarrow> Inl err
      | Inr m1 \<Rightarrow> conflict_colors pkg x w edges ks m1)"

text \<open>
  Lines 16 to 35 of the source: everything \<^verbatim>\<open>ilp_graph_coloring\<close> does before it
  calls the solver.
\<close>

definition build_model :: "sum_rule \<Rightarrow> int \<Rightarrow> (int \<times> int) list \<Rightarrow> py_error + model" where
  "build_model pkg n edges =
     (case add_var_row (py_range n) Model of (w, m1) \<Rightarrow>
        (case add_var_grid (py_range n) (py_range n) m1 of (x, m2) \<Rightarrow>
           conflict_colors pkg x w edges (py_range n)
             (add_assignment_constrs x n
                (m2\<lparr>objective := map (\<lambda>i. w ! i) (py_range n)\<rparr>))))"

section \<open>The solver boundary and the printed report\<close>

text \<open>
  The statuses of the MIP package's \<^verbatim>\<open>OptimizationStatus\<close>. The solver is not part of
  the program: it is a parameter that maps a model to a status, an objective value and
  a value for each variable (floating-point numbers in the source, reals here).
\<close>

datatype OptimizationStatus =
  ERROR | OPTIMAL | INFEASIBLE | UNBOUNDED | FEASIBLE
| INT_INFEASIBLE | NO_SOLUTION_FOUND | LOADED | CUTOFF | OTHER

record solved =
  status :: OptimizationStatus
  objective_value :: real
  var_x :: "var \<Rightarrow> real"

text \<open>
  What the function prints. \<open>CostLine c\<close> is
  \<^verbatim>\<open>'optimal solution cost {} found'.format(c)\<close> and \<open>VarLine v r\<close> is
  \<^verbatim>\<open>'{} : {}'.format(v.name, v.x)\<close> for variable number \<open>v\<close> with value \<open>r\<close>.
\<close>

datatype line = CostLine real | VarLine var real

definition print_results :: "model \<Rightarrow> solved \<Rightarrow> line list" where
  "print_results m s =
     (if status s = OPTIMAL
      then CostLine (objective_value s) #
           map (\<lambda>v. VarLine v (var_x s v))
             (filter (\<lambda>v. \<bar>var_x s v\<bar> > 0) [0..<num_vars m])
      else [])"

definition ilp_graph_coloring ::
  "sum_rule \<Rightarrow> (model \<Rightarrow> solved) \<Rightarrow> int \<Rightarrow> (int \<times> int) list \<Rightarrow> py_error + line list" where
  "ilp_graph_coloring pkg optimize n edges =
     (case build_model pkg n edges of
        Inl err \<Rightarrow> Inl err
      | Inr m \<Rightarrow> Inr (print_results m (optimize m)))"

text \<open>The input at the end of the file: the Petersen graph.\<close>

definition petersen_n :: int where
  "petersen_n = 10"

definition petersen_edges :: "(int \<times> int) list" where
  "petersen_edges =
     [(0, 1), (0, 4), (0, 5), (1, 2), (1, 6), (2, 3), (2, 7), (3, 4),
      (3, 8), (4, 9), (5, 7), (5, 8), (6, 8), (6, 9), (7, 9)]"

section \<open>Solutions of a model\<close>

text \<open>
  A solution gives every variable an integer value. It is feasible when every variable
  of the model is binary and every registered constraint holds; its objective value is
  the value of the minimised sum.
\<close>

definition lin_value :: "(var \<Rightarrow> int) \<Rightarrow> var list \<Rightarrow> int" where
  "lin_value val vs = sum_list (map val vs)"

fun holds :: "(var \<Rightarrow> int) \<Rightarrow> constr \<Rightarrow> bool" where
  "holds val (SumEq vs c) = (lin_value val vs = c)"
| "holds val (SumLe vs v) = (lin_value val vs \<le> val v)"

definition feasible :: "model \<Rightarrow> (var \<Rightarrow> int) \<Rightarrow> bool" where
  "feasible m val =
     (list_all (\<lambda>v. val v = 0 \<or> val v = 1) [0..<num_vars m] \<and>
      list_all (holds val) (constrs m))"

definition objective_of :: "model \<Rightarrow> (var \<Rightarrow> int) \<Rightarrow> int" where
  "objective_of m val = lin_value val (objective m)"

definition optimal :: "model \<Rightarrow> (var \<Rightarrow> int) \<Rightarrow> bool" where
  "optimal m val =
     (feasible m val \<and> (\<forall>val'. feasible m val' \<longrightarrow> objective_of m val \<le> objective_of m val'))"

text \<open>
  The numbering of the variables that results from the order of the \<^verbatim>\<open>add_var\<close>
  calls, and that the comments at the end of the source describe: \<open>w[k]\<close> is variable
  \<open>k\<close>, and \<open>x[i][k]\<close> is variable \<open>n + i * n + k\<close>.
\<close>

definition w_var :: "nat \<Rightarrow> var" where
  "w_var k = k"

definition x_var :: "nat \<Rightarrow> nat \<Rightarrow> nat \<Rightarrow> var" where
  "x_var n i k = n + i * n + k"

text \<open>
  Reading a solution: the colors of vertex \<open>i\<close> are the \<open>k\<close> with \<open>x[i][k] = 1\<close>, and
  the colors in use are those of all vertices together.
\<close>

definition colors_of :: "nat \<Rightarrow> (var \<Rightarrow> int) \<Rightarrow> nat \<Rightarrow> nat list" where
  "colors_of n val i = filter (\<lambda>k. val (x_var n i k) = 1) [0..<n]"

definition colors_used :: "nat \<Rightarrow> (var \<Rightarrow> int) \<Rightarrow> nat" where
  "colors_used n val = length (remdups (concat (map (colors_of n val) [0..<n])))"

text \<open>
  Python resolves an endpoint \<open>i\<close> of an edge to row \<open>i\<close> of the grid when \<open>i \<ge> 0\<close>
  and to row \<open>n + i\<close> when \<open>i < 0\<close>.
\<close>

definition vertex_of :: "int \<Rightarrow> int \<Rightarrow> nat" where
  "vertex_of n i = (if i < 0 then nat (n + i) else nat i)"

definition indexable :: "int \<Rightarrow> int \<Rightarrow> bool" where
  "indexable n i = (- n \<le> i \<and> i < n)"

definition edges_indexable :: "int \<Rightarrow> (int \<times> int) list \<Rightarrow> bool" where
  "edges_indexable n edges = list_all (\<lambda>e. indexable n (fst e) \<and> indexable n (snd e)) edges"

text \<open>
  The graphs the specification calls valid: a positive number of vertices, every endpoint
  in \<open>[0, n)\<close>, no self-loop. The source has no such check; the predicate only names the
  inputs that some properties are about.
\<close>

definition valid_graph :: "int \<Rightarrow> (int \<times> int) list \<Rightarrow> bool" where
  "valid_graph n edges =
     (0 < n \<and> list_all (\<lambda>e. 0 \<le> fst e \<and> fst e < n \<and> 0 \<le> snd e \<and> snd e < n \<and> fst e \<noteq> snd e) edges)"

section \<open>The model in closed form\<close>

text \<open>
  What the loops of \<open>build_model\<close> produce when no index operation fails, written
  without the loops: the assignment constraint of vertex \<open>i\<close>, the conflict constraint
  of color \<open>k\<close> and edge \<open>e\<close>, and the whole model.
\<close>

definition assignment_row :: "nat \<Rightarrow> nat \<Rightarrow> constr" where
  "assignment_row N i = SumEq (map (x_var N i) [0..<N]) 1"

definition conflict_row :: "sum_rule \<Rightarrow> int \<Rightarrow> nat \<Rightarrow> int \<times> int \<Rightarrow> constr" where
  "conflict_row pkg n k e =
     SumLe (var_plus pkg (x_var (nat n) (vertex_of n (fst e)) k)
                         (x_var (nat n) (vertex_of n (snd e)) k)) (w_var k)"

definition encoded :: "sum_rule \<Rightarrow> int \<Rightarrow> (int \<times> int) list \<Rightarrow> model" where
  "encoded pkg n edges =
     \<lparr>num_vars = nat n + nat n * nat n,
      objective = map w_var [0..<nat n],
      constrs = map (assignment_row (nat n)) [0..<nat n] @
                concat (map (\<lambda>k. map (conflict_row pkg n k) edges) [0..<nat n])\<rparr>"

definition row_constr :: "sum_rule \<Rightarrow> var list list \<Rightarrow> var list \<Rightarrow> int \<Rightarrow> nat \<Rightarrow> int \<times> int \<Rightarrow> constr" where
  "row_constr pkg x w n k e =
     SumLe (var_plus pkg (x ! vertex_of n (fst e) ! k) (x ! vertex_of n (snd e) ! k)) (w ! k)"

text \<open>
  The edge list with every endpoint replaced by the row of the grid that Python's
  indexing selects for it.
\<close>

definition resolve_edge :: "int \<Rightarrow> int \<times> int \<Rightarrow> int \<times> int" where
  "resolve_edge n e = (int (vertex_of n (fst e)), int (vertex_of n (snd e)))"

text \<open>
  Two solutions used below. \<open>identity_coloring\<close> gives vertex \<open>i\<close> color \<open>i\<close> and
  declares every color used. \<open>isolated_solution\<close> does the same, except that it
  declares color \<open>v\<close> unused. \<open>diagonal\<close> says that a solution gives vertex \<open>i\<close>
  color \<open>i\<close> and no other color.
\<close>

definition identity_coloring :: "nat \<Rightarrow> var \<Rightarrow> int" where
  "identity_coloring N u =
     (if u < N then 1 else if u \<in> set (map (\<lambda>i. x_var N i i) [0..<N]) then 1 else 0)"

definition isolated_solution :: "nat \<Rightarrow> nat \<Rightarrow> var \<Rightarrow> int" where
  "isolated_solution N v u =
     (if u < N then (if u = v then 0 else 1)
      else if u \<in> set (map (\<lambda>i. x_var N i i) [0..<N]) then 1 else 0)"

definition diagonal :: "nat \<Rightarrow> (var \<Rightarrow> int) \<Rightarrow> bool" where
  "diagonal N val = (\<forall>i < N. \<forall>k < N. val (x_var N i k) = (if k = i then 1 else 0))"

text \<open>
  The solution that the comment at the end of the source records as the solver's output
  for the Petersen graph: the variables with value 1.
\<close>

definition petersen_solution :: "var \<Rightarrow> int" where
  "petersen_solution v =
     (if v \<in> set [0, 1, 8, 18, 20, 38, 41, 50, 60, 71, 81, 98, 108] then 1 else 0)"

section \<open>The loops in closed form\<close>

lemma add_var_row_eq:
  "add_var_row js m =
     ([num_vars m ..< num_vars m + length js], m\<lparr>num_vars := num_vars m + length js\<rparr>)"
proof (induction js arbitrary: m)
  case Nil
  show ?case by simp
next
  case (Cons j js)
  have "[a..<a + Suc l] = a # [Suc a..<Suc a + l]" for a l :: nat
    by (simp add: upt_conv_Cons del: upt_Suc)
  then show ?case
    by (simp add: Cons add_var_def del: upt_Suc)
qed

lemma add_var_grid_eq:
  "add_var_grid is js m =
     (map (\<lambda>i. [num_vars m + i * length js ..< num_vars m + i * length js + length js])
        [0..<length is],
      m\<lparr>num_vars := num_vars m + length is * length js\<rparr>)"
proof (induction "is" arbitrary: m)
  case Nil
  show ?case by simp
next
  case (Cons i "is")
  define c where "c = length js"
  define r where "r = length is"
  have "map (\<lambda>i. [num_vars m + i * c ..< num_vars m + i * c + c]) [0..<Suc r]
      = [num_vars m ..< num_vars m + c] #
        map (\<lambda>i. [num_vars m + c + i * c ..< num_vars m + c + i * c + c]) [0..<r]"
    by (simp add: upt_conv_Cons map_Suc_upt [symmetric] ac_simps del: upt_Suc)
  then show ?case
    by (simp add: Cons add_var_row_eq ac_simps c_def [symmetric] r_def [symmetric] del: upt_Suc)
qed

lemma py_index_rows:
  "length x = nat n \<Longrightarrow>
   py_index x i = (if indexable n i then Inr (x ! vertex_of n i) else Inl IndexError)"
  by (auto simp: py_index_def indexable_def vertex_of_def)

lemma vertex_of_less: "indexable n i \<Longrightarrow> vertex_of n i < nat n"
  by (auto simp: indexable_def vertex_of_def)

lemma conflict_constr_eq:
  "length x = nat n \<Longrightarrow>
   conflict_constr pkg x w k e =
     (if indexable n (fst e) \<and> indexable n (snd e) then Inr (row_constr pkg x w n k e)
      else Inl IndexError)"
  by (simp add: conflict_constr_def py_index_rows row_constr_def)

lemma conflict_edges_eq:
  "length x = nat n \<Longrightarrow>
   conflict_edges pkg x w k es m =
     (if edges_indexable n es then Inr (m\<lparr>constrs := constrs m @ map (row_constr pkg x w n k) es\<rparr>)
      else Inl IndexError)"
proof (induction es arbitrary: m)
  case Nil
  show ?case by (simp add: edges_indexable_def)
next
  case (Cons e es)
  show ?case
    by (simp add: Cons conflict_constr_eq edges_indexable_def add_constr_def)
qed

lemma conflict_colors_eq:
  "length x = nat n \<Longrightarrow>
   conflict_colors pkg x w es ks m =
     (if ks \<noteq> [] \<and> \<not> edges_indexable n es then Inl IndexError
      else Inr (m\<lparr>constrs := constrs m @ concat (map (\<lambda>k. map (row_constr pkg x w n k) es) ks)\<rparr>))"
proof (induction ks arbitrary: m)
  case Nil
  show ?case by simp
next
  case (Cons k ks)
  show ?case
    by (simp add: Cons conflict_edges_eq)
qed

lemma add_assignment_constrs_eq:
  "fold (\<lambda>i. add_constr (f i)) is m = m\<lparr>constrs := constrs m @ map f is\<rparr>"
  by (induction "is" arbitrary: m) (simp_all add: add_constr_def)

lemma upt_shift: "[a..<a + c] = map (\<lambda>k. a + k) [0..<c]"
  by (induction c) simp_all

lemma grid_rows:
  "map (\<lambda>i. [N + i * N ..< N + i * N + N]) [0..<N] = map (\<lambda>i. map (x_var N i) [0..<N]) [0..<N]"
  by (simp add: upt_shift x_var_def)

lemma build_model_eq:
  "build_model pkg n edges =
     (if 0 < n \<and> \<not> edges_indexable n edges then Inl IndexError else Inr (encoded pkg n edges))"
proof -
  define N where "N = nat n"
  define x where "x = map (\<lambda>i. map (x_var N i) [0..<N]) [0..<N]"
  define w where "w = [0..<N]"
  have len: "length x = nat n"
    by (simp add: x_def N_def)
  have rng: "length (py_range n) = N"
    by (simp add: py_range_def N_def)
  have rows: "add_var_row (py_range n) Model = (w, Model\<lparr>num_vars := N\<rparr>)"
    by (simp add: add_var_row_eq rng Model_def w_def)
  have grid: "add_var_grid (py_range n) (py_range n) (Model\<lparr>num_vars := N\<rparr>)
      = (x, Model\<lparr>num_vars := N + N * N\<rparr>)"
    by (simp add: add_var_grid_eq rng grid_rows x_def)
  have obj: "map (\<lambda>i. w ! i) (py_range n) = map w_var [0..<N]"
    by (simp add: py_range_def N_def [symmetric] w_def w_var_def)
  have asg: "map (assignment_constr x n) (py_range n) = map (assignment_row N) [0..<N]"
    by (simp add: py_range_def N_def [symmetric] assignment_constr_def assignment_row_def x_def)
  have cfl: "concat (map (\<lambda>k. map (row_constr pkg x w n k) edges) (py_range n))
           = concat (map (\<lambda>k. map (conflict_row pkg n k) edges) [0..<N])"
    if "edges_indexable n edges"
  proof -
    have "row_constr pkg x w n k e = conflict_row pkg n k e" if "k < N" "e \<in> set edges" for k e
    proof -
      from \<open>edges_indexable n edges\<close> \<open>e \<in> set edges\<close>
      have "vertex_of n (fst e) < N" "vertex_of n (snd e) < N"
        by (auto simp: edges_indexable_def list_all_iff N_def vertex_of_less)
      with \<open>k < N\<close> show ?thesis
        by (simp add: row_constr_def conflict_row_def x_def w_def w_var_def N_def [symmetric])
    qed
    then have "map (\<lambda>k. map (row_constr pkg x w n k) edges) [0..<N]
             = map (\<lambda>k. map (conflict_row pkg n k) edges) [0..<N]"
      by (intro map_cong refl) simp
    then show ?thesis
      unfolding py_range_def N_def [symmetric] by (rule arg_cong)
  qed
  have unfolded: "build_model pkg n edges =
      conflict_colors pkg x w edges (py_range n)
        (add_assignment_constrs x n
          (Model\<lparr>num_vars := N + N * N, objective := map w_var [0..<N]\<rparr>))"
    by (simp add: build_model_def rows grid obj)
  show ?thesis
  proof (cases "0 < n \<and> \<not> edges_indexable n edges")
    case True
    then have "py_range n \<noteq> []"
      by (simp add: py_range_def)
    with True show ?thesis
      by (simp add: unfolded conflict_colors_eq [OF len])
  next
    case False
    show ?thesis
    proof (cases "edges_indexable n edges")
      case True
      then show ?thesis
        by (simp add: unfolded conflict_colors_eq [OF len] add_assignment_constrs_def
            add_assignment_constrs_eq asg cfl encoded_def Model_def N_def [symmetric])
    next
      case no: False
      with False have "N = 0" "\<not> 0 < n"
        by (simp_all add: N_def)
      then show ?thesis
        by (simp add: unfolded add_assignment_constrs_def py_range_def encoded_def Model_def
            N_def [symmetric])
    qed
  qed
qed

lemma encoded_nonpositive: "n \<le> 0 \<Longrightarrow> encoded pkg n edges = Model"
  by (simp add: encoded_def Model_def)

lemma vertex_of_int: "vertex_of n (int v) = v"
  by (simp add: vertex_of_def)

lemma indexable_vertex_of: "indexable n i \<Longrightarrow> indexable n (int (vertex_of n i))"
  by (auto simp: indexable_def vertex_of_def)

lemma edges_indexable_resolve:
  "edges_indexable n edges \<Longrightarrow> edges_indexable n (map (resolve_edge n) edges)"
  by (simp add: edges_indexable_def list_all_iff resolve_edge_def indexable_vertex_of)

lemma conflict_row_resolve: "conflict_row pkg n k (resolve_edge n e) = conflict_row pkg n k e"
  by (simp add: conflict_row_def resolve_edge_def vertex_of_int)

lemma encoded_resolve: "encoded pkg n (map (resolve_edge n) edges) = encoded pkg n edges"
  by (simp add: encoded_def conflict_row_resolve comp_def)

lemma build_model_Inr:
  "build_model pkg n edges = Inr m \<Longrightarrow> m = encoded pkg n edges \<and> (0 < n \<longrightarrow> edges_indexable n edges)"
  by (auto simp: build_model_eq split: if_splits)

lemma conflict_row_member:
  "e \<in> set edges \<Longrightarrow> k < nat n \<Longrightarrow> conflict_row pkg n k e \<in> set (constrs (encoded pkg n edges))"
  by (auto simp: encoded_def)

lemma assignment_row_member:
  "i < nat n \<Longrightarrow> assignment_row (nat n) i \<in> set (constrs (encoded pkg n edges))"
  by (auto simp: encoded_def)

section \<open>Feasible solutions of the model\<close>

lemma lin_value_count:
  "\<forall>v \<in> set vs. val v = 0 \<or> val v = 1 \<Longrightarrow>
   lin_value val vs = int (length (filter (\<lambda>v. val v = 1) vs))"
  by (induction vs) (auto simp: lin_value_def)

lemma x_var_bound: "i < N \<Longrightarrow> k < N \<Longrightarrow> x_var N i k < N + N * N"
proof -
  assume "i < N" "k < N"
  then have "i * N + k < Suc i * N" by simp
  also from \<open>i < N\<close> have "Suc i * N \<le> N * N"
    by (intro mult_le_mono1) simp
  finally show ?thesis by (simp add: x_var_def)
qed

lemma x_var_eq_iff:
  "k < N \<Longrightarrow> k' < N \<Longrightarrow> x_var N i k = x_var N i' k' \<longleftrightarrow> i = i' \<and> k = k'"
proof
  assume lt: "k < N" "k' < N" and eq: "x_var N i k = x_var N i' k'"
  then have e: "i * N + k = i' * N + k'" by (simp add: x_var_def)
  from lt have "(i * N + k) div N = i" "(i' * N + k') div N = i'"
    "(i * N + k) mod N = k" "(i' * N + k') mod N = k'"
    by simp_all
  with e show "i = i' \<and> k = k'" by metis
qed simp

lemma x_var_not_w: "k < N \<Longrightarrow> \<not> x_var N i j < N"
  by (simp add: x_var_def)

lemma feasible_encoded_iff:
  "feasible (encoded pkg n edges) val \<longleftrightarrow>
     (\<forall>v < nat n + nat n * nat n. val v = 0 \<or> val v = 1) \<and>
     (\<forall>i < nat n. lin_value val (map (x_var (nat n) i) [0..<nat n]) = 1) \<and>
     (\<forall>k < nat n. \<forall>e \<in> set edges.
        lin_value val (var_plus pkg (x_var (nat n) (vertex_of n (fst e)) k)
                                    (x_var (nat n) (vertex_of n (snd e)) k))
          \<le> val (w_var k))"
proof -
  have bin: "list_all (\<lambda>v. val v = 0 \<or> val v = 1) [0..<M] \<longleftrightarrow> (\<forall>v < M. val v = 0 \<or> val v = 1)"
    for M
    by (auto simp: list_all_iff)
  have asg: "list_all (holds val) (map (assignment_row N) [0..<N]) \<longleftrightarrow>
      (\<forall>i < N. lin_value val (map (x_var N i) [0..<N]) = 1)" for N
    by (auto simp: list_all_iff assignment_row_def)
  have row: "holds val (conflict_row pkg n k e) \<longleftrightarrow>
      lin_value val (var_plus pkg (x_var (nat n) (vertex_of n (fst e)) k)
                                  (x_var (nat n) (vertex_of n (snd e)) k))
          \<le> val (w_var k)" for k e
    by (simp add: conflict_row_def)
  have cfl: "list_all (holds val) (concat (map (\<lambda>k. map (conflict_row pkg n k) edges) [0..<N])) \<longleftrightarrow>
      (\<forall>k < N. \<forall>e \<in> set edges. holds val (conflict_row pkg n k e))" for N
    by (auto simp: list_all_iff)
  show ?thesis
    by (simp add: feasible_def encoded_def bin asg cfl row)
qed

lemma var_plus_distinct: "a \<noteq> b \<or> pkg = Add_Coefficients \<Longrightarrow> var_plus pkg a b = [a, b]"
  by (auto simp: var_plus_def)

lemma var_plus_same: "var_plus Keep_One a a = [a]"
  by (simp add: var_plus_def)

lemma x_var_vertex: "k < N \<Longrightarrow> x_var N i k = x_var N j k \<longleftrightarrow> i = j"
  by (simp add: x_var_eq_iff)

lemma conflict_row_sum:
  assumes feas: "feasible (encoded pkg n edges) val" and e: "e \<in> set edges" and k: "k < nat n"
    and two: "vertex_of n (fst e) \<noteq> vertex_of n (snd e) \<or> pkg = Add_Coefficients"
  shows "val (x_var (nat n) (vertex_of n (fst e)) k) + val (x_var (nat n) (vertex_of n (snd e)) k)
      \<le> val (w_var k)"
proof -
  from two k have "var_plus pkg (x_var (nat n) (vertex_of n (fst e)) k)
      (x_var (nat n) (vertex_of n (snd e)) k)
    = [x_var (nat n) (vertex_of n (fst e)) k, x_var (nat n) (vertex_of n (snd e)) k]"
    by (intro var_plus_distinct) (auto simp: x_var_vertex)
  moreover from feas e k
  have "lin_value val (var_plus pkg (x_var (nat n) (vertex_of n (fst e)) k)
      (x_var (nat n) (vertex_of n (snd e)) k)) \<le> val (w_var k)"
    by (simp add: feasible_encoded_iff)
  ultimately show ?thesis
    by (simp add: lin_value_def)
qed

lemma conflict_row_each:
  assumes feas: "feasible (encoded pkg n edges) val" and e: "e \<in> set edges" and k: "k < nat n"
    and idx: "edges_indexable n edges"
  shows "val (x_var (nat n) (vertex_of n (fst e)) k) \<le> val (w_var k) \<and>
         val (x_var (nat n) (vertex_of n (snd e)) k) \<le> val (w_var k)"
proof -
  let ?a = "x_var (nat n) (vertex_of n (fst e)) k" and ?b = "x_var (nat n) (vertex_of n (snd e)) k"
  from idx e have "vertex_of n (fst e) < nat n" "vertex_of n (snd e) < nat n"
    by (auto simp: edges_indexable_def list_all_iff vertex_of_less)
  with k have "?a < nat n + nat n * nat n" "?b < nat n + nat n * nat n"
    by (simp_all add: x_var_bound)
  with feas have "0 \<le> val ?a" "0 \<le> val ?b"
    by (auto simp: feasible_encoded_iff)
  then have "val ?a \<le> lin_value val (var_plus pkg ?a ?b) \<and> val ?b \<le> lin_value val (var_plus pkg ?a ?b)"
    by (auto simp: var_plus_def lin_value_def)
  moreover from feas e k have "lin_value val (var_plus pkg ?a ?b) \<le> val (w_var k)"
    by (simp add: feasible_encoded_iff)
  ultimately show ?thesis by simp
qed

lemma colors_of_member:
  "c \<in> set (colors_of N val i) \<longleftrightarrow> c < N \<and> val (x_var N i c) = 1"
  by (auto simp: colors_of_def)

lemma colors_of_length:
  assumes "feasible (encoded pkg n edges) val" and "i < nat n"
  shows "length (colors_of (nat n) val i) = 1"
proof -
  let ?N = "nat n"
  from assms have bin: "\<forall>v \<in> set (map (x_var ?N i) [0..<?N]). val v = 0 \<or> val v = 1"
    by (auto simp: feasible_encoded_iff x_var_bound)
  from assms have "lin_value val (map (x_var ?N i) [0..<?N]) = 1"
    by (simp add: feasible_encoded_iff)
  with lin_value_count [OF bin]
  have "length (filter (\<lambda>v. val v = 1) (map (x_var ?N i) [0..<?N])) = 1"
    by simp
  then show ?thesis
    by (simp add: colors_of_def filter_map comp_def)
qed

lemma no_shared_color:
  assumes feas: "feasible (encoded pkg n edges) val" and e: "e \<in> set edges" and k: "k < nat n"
    and two: "vertex_of n (fst e) \<noteq> vertex_of n (snd e) \<or> pkg = Add_Coefficients"
  shows "\<not> (val (x_var (nat n) (vertex_of n (fst e)) k) = 1 \<and>
            val (x_var (nat n) (vertex_of n (snd e)) k) = 1)"
proof
  assume both: "val (x_var (nat n) (vertex_of n (fst e)) k) = 1 \<and>
            val (x_var (nat n) (vertex_of n (snd e)) k) = 1"
  from k have "w_var k < nat n + nat n * nat n"
    by (simp add: w_var_def)
  with feas have "val (w_var k) \<le> 1"
    by (auto simp: feasible_encoded_iff)
  moreover from feas e k two have "val (x_var (nat n) (vertex_of n (fst e)) k) +
      val (x_var (nat n) (vertex_of n (snd e)) k) \<le> val (w_var k)"
    by (rule conflict_row_sum)
  ultimately show False using both by simp
qed

lemma singleton_list: "length xs = 1 \<Longrightarrow> \<exists>a. xs = [a]"
  by (cases xs) simp_all

lemma endpoints_differ:
  assumes feas: "feasible (encoded pkg n edges) val" and e: "e \<in> set edges"
    and idx: "edges_indexable n edges"
    and two: "vertex_of n (fst e) \<noteq> vertex_of n (snd e) \<or> pkg = Add_Coefficients"
  shows "\<exists>a b. colors_of (nat n) val (vertex_of n (fst e)) = [a] \<and>
               colors_of (nat n) val (vertex_of n (snd e)) = [b] \<and> a \<noteq> b"
proof -
  from idx e have "vertex_of n (fst e) < nat n" "vertex_of n (snd e) < nat n"
    by (auto simp: edges_indexable_def list_all_iff vertex_of_less)
  with feas obtain a b where a: "colors_of (nat n) val (vertex_of n (fst e)) = [a]"
    and b: "colors_of (nat n) val (vertex_of n (snd e)) = [b]"
    using colors_of_length singleton_list by blast
  from a have "a \<in> set (colors_of (nat n) val (vertex_of n (fst e)))" by simp
  then have a1: "a < nat n" "val (x_var (nat n) (vertex_of n (fst e)) a) = 1"
    by (simp_all add: colors_of_member)
  from b have "b \<in> set (colors_of (nat n) val (vertex_of n (snd e)))" by simp
  then have b1: "val (x_var (nat n) (vertex_of n (snd e)) b) = 1"
    by (simp add: colors_of_member)
  from no_shared_color [OF feas e a1(1) two] a1 b1 have "a \<noteq> b" by auto
  with a b show ?thesis by blast
qed

lemma colors_used_le: "colors_used N val \<le> N"
proof -
  have "set (concat (map (colors_of N val) [0..<N])) \<subseteq> {0..<N}"
    by (auto simp: colors_of_def)
  then have "card (set (concat (map (colors_of N val) [0..<N]))) \<le> card {0..<N}"
    by (intro card_mono) simp_all
  then show ?thesis
    by (simp add: colors_used_def length_remdups_card_conv)
qed

section \<open>The diagonal solutions\<close>

lemma filter_eq_upt: "i < N \<Longrightarrow> filter (\<lambda>k. k = i) [0..<N] = [i]"
proof (induction N)
  case 0
  then show ?case by simp
next
  case (Suc N)
  show ?case
  proof (cases "i = N")
    case True
    have "filter (\<lambda>k. k = N) [0..<N] = []"
      by (simp add: filter_empty_conv)
    with True show ?thesis by simp
  next
    case False
    with Suc show ?thesis by simp
  qed
qed

lemma diagonal_member:
  "i < N \<Longrightarrow> k < N \<Longrightarrow> x_var N i k \<in> set (map (\<lambda>j. x_var N j j) [0..<N]) \<longleftrightarrow> k = i"
  by (auto simp: x_var_eq_iff)

lemma diagonal_identity: "diagonal N (identity_coloring N)"
  by (simp add: diagonal_def identity_coloring_def diagonal_member x_var_not_w del: set_map)

lemma diagonal_isolated: "diagonal N (isolated_solution N v)"
  by (simp add: diagonal_def isolated_solution_def diagonal_member x_var_not_w del: set_map)

lemma diagonal_colors_of: "diagonal N val \<Longrightarrow> i < N \<Longrightarrow> colors_of N val i = [i]"
proof -
  assume d: "diagonal N val" and i: "i < N"
  then have "filter (\<lambda>k. val (x_var N i k) = 1) [0..<N] = filter (\<lambda>k. k = i) [0..<N]"
    by (intro filter_cong refl) (simp add: diagonal_def)
  with i show ?thesis
    by (simp add: colors_of_def filter_eq_upt)
qed

lemma diagonal_row_sum:
  assumes "diagonal N val" and "i < N"
  shows "lin_value val (map (x_var N i) [0..<N]) = 1"
proof -
  from assms have "\<forall>v \<in> set (map (x_var N i) [0..<N]). val v = 0 \<or> val v = 1"
    by (auto simp: diagonal_def)
  from lin_value_count [OF this]
  have "lin_value val (map (x_var N i) [0..<N]) = int (length (colors_of N val i))"
    by (simp add: colors_of_def filter_map comp_def)
  with assms show ?thesis
    by (simp add: diagonal_colors_of)
qed

lemma diagonal_colors_used: "diagonal N val \<Longrightarrow> colors_used N val = N"
proof -
  assume d: "diagonal N val"
  then have "map (colors_of N val) [0..<N] = map (\<lambda>i. [i]) [0..<N]"
    by (intro map_cong refl) (simp add: diagonal_colors_of)
  moreover have "concat (map (\<lambda>i. [i]) xs) = xs" for xs :: "nat list"
    by (induction xs) simp_all
  ultimately have "concat (map (colors_of N val) [0..<N]) = [0..<N]"
    by (simp only:)
  then show ?thesis
    by (simp add: colors_used_def)
qed

lemma valid_graph_indexable: "valid_graph n edges \<Longrightarrow> edges_indexable n edges"
  by (auto simp: valid_graph_def edges_indexable_def list_all_iff indexable_def)

lemma valid_graph_edge:
  "valid_graph n edges \<Longrightarrow> e \<in> set edges \<Longrightarrow>
   vertex_of n (fst e) = nat (fst e) \<and> vertex_of n (snd e) = nat (snd e) \<and>
   nat (fst e) < nat n \<and> nat (snd e) < nat n \<and> nat (fst e) \<noteq> nat (snd e)"
  by (auto simp: valid_graph_def list_all_iff vertex_of_def)

lemma identity_feasible_rows:
  assumes idx: "edges_indexable n edges"
    and ok: "\<forall>e \<in> set edges. vertex_of n (fst e) \<noteq> vertex_of n (snd e) \<or> pkg = Keep_One"
  shows "feasible (encoded pkg n edges) (identity_coloring (nat n))"
proof -
  let ?N = "nat n" and ?val = "identity_coloring (nat n)"
  have bin: "?val u = 0 \<or> ?val u = 1" for u
    by (simp add: identity_coloring_def)
  have asg: "lin_value ?val (map (x_var ?N i) [0..<?N]) = 1" if "i < ?N" for i
    using that by (simp add: diagonal_row_sum diagonal_identity)
  have cfl: "lin_value ?val (var_plus pkg (x_var ?N (vertex_of n (fst e)) k)
      (x_var ?N (vertex_of n (snd e)) k)) \<le> ?val (w_var k)" if "k < ?N" "e \<in> set edges" for k e
  proof -
    let ?i = "vertex_of n (fst e)" and ?j = "vertex_of n (snd e)"
    from idx that(2) have lt: "?i < ?N" "?j < ?N"
      by (auto simp: edges_indexable_def list_all_iff vertex_of_less)
    with that(1) have val: "?val (x_var ?N ?i k) = (if k = ?i then 1 else 0)"
      "?val (x_var ?N ?j k) = (if k = ?j then 1 else 0)"
      using diagonal_identity [of ?N] by (simp_all add: diagonal_def)
    from that(1) have w: "?val (w_var k) = 1"
      by (simp add: identity_coloring_def w_var_def)
    from ok that(2) have "?i \<noteq> ?j \<or> pkg = Keep_One"
      by blast
    then show ?thesis
    proof
      assume "?i \<noteq> ?j"
      with that(1) have "var_plus pkg (x_var ?N ?i k) (x_var ?N ?j k)
          = [x_var ?N ?i k, x_var ?N ?j k]"
        by (intro var_plus_distinct) (simp add: x_var_vertex)
      with val w \<open>?i \<noteq> ?j\<close> show ?thesis
        by (simp add: lin_value_def)
    next
      assume "pkg = Keep_One"
      with val w show ?thesis
        by (simp add: var_plus_def lin_value_def)
    qed
  qed
  show ?thesis
    by (simp add: feasible_encoded_iff bin asg cfl)
qed

lemma identity_feasible:
  assumes "valid_graph n edges"
  shows "feasible (encoded pkg n edges) (identity_coloring (nat n))"
proof (rule identity_feasible_rows)
  show "edges_indexable n edges"
    using assms by (rule valid_graph_indexable)
  show "\<forall>e \<in> set edges. vertex_of n (fst e) \<noteq> vertex_of n (snd e) \<or> pkg = Keep_One"
    using valid_graph_edge [OF assms] by simp
qed

lemma isolated_objective:
  assumes "v < N"
  shows "lin_value (isolated_solution N v) (map w_var [0..<N]) = int N - 1"
proof -
  let ?val = "isolated_solution N v"
  have "\<forall>u \<in> set (map w_var [0..<N]). ?val u = 0 \<or> ?val u = 1"
    by (simp add: isolated_solution_def w_var_def)
  from lin_value_count [OF this]
  have "lin_value ?val (map w_var [0..<N]) = int (length (filter (\<lambda>k. ?val (w_var k) = 1) [0..<N]))"
    by (simp add: filter_map comp_def)
  also have "filter (\<lambda>k. ?val (w_var k) = 1) [0..<N] = filter (\<lambda>k. \<not> k = v) [0..<N]"
    by (intro filter_cong refl) (simp add: isolated_solution_def w_var_def)
  also have "length (filter (\<lambda>k. k = v) [0..<N]) + length (filter (\<lambda>k. \<not> k = v) [0..<N]) = N"
    using sum_length_filter_compl [of "\<lambda>k. k = v" "[0..<N]"] by simp
  then have "int (length (filter (\<lambda>k. \<not> k = v) [0..<N])) = int N - 1"
    using assms by (simp add: filter_eq_upt)
  finally show ?thesis .
qed

lemma isolated_feasible:
  assumes valid: "valid_graph n edges"
    and iso: "\<forall>e \<in> set edges. nat (fst e) \<noteq> v \<and> nat (snd e) \<noteq> v"
  shows "feasible (encoded pkg n edges) (isolated_solution (nat n) v)"
proof -
  let ?N = "nat n" and ?val = "isolated_solution (nat n) v"
  have bin: "?val u = 0 \<or> ?val u = 1" for u
    by (simp add: isolated_solution_def)
  have asg: "lin_value ?val (map (x_var ?N i) [0..<?N]) = 1" if "i < ?N" for i
    using that by (simp add: diagonal_row_sum diagonal_isolated)
  have cfl: "lin_value ?val (var_plus pkg (x_var ?N (vertex_of n (fst e)) k)
      (x_var ?N (vertex_of n (snd e)) k)) \<le> ?val (w_var k)" if "k < ?N" "e \<in> set edges" for k e
  proof -
    from valid_graph_edge [OF valid that(2)] that(1)
    have val: "?val (x_var ?N (vertex_of n (fst e)) k) = (if k = nat (fst e) then 1 else 0)"
      "?val (x_var ?N (vertex_of n (snd e)) k) = (if k = nat (snd e) then 1 else 0)"
      "nat (fst e) \<noteq> nat (snd e)"
      using diagonal_isolated [of ?N v] by (simp_all add: diagonal_def)
    from valid_graph_edge [OF valid that(2)] that(1)
    have "var_plus pkg (x_var ?N (vertex_of n (fst e)) k) (x_var ?N (vertex_of n (snd e)) k)
        = [x_var ?N (vertex_of n (fst e)) k, x_var ?N (vertex_of n (snd e)) k]"
      by (intro var_plus_distinct) (simp add: x_var_vertex)
    moreover from that(1) have "?val (w_var k) = (if k = v then 0 else 1)"
      by (simp add: isolated_solution_def w_var_def)
    moreover from iso that(2) have "nat (fst e) \<noteq> v" "nat (snd e) \<noteq> v"
      by simp_all
    ultimately show ?thesis using val by (auto simp: lin_value_def)
  qed
  show ?thesis
    by (simp add: feasible_encoded_iff bin asg cfl)
qed

section \<open>Counting colors\<close>

lemma objective_card:
  assumes "feasible (encoded pkg n edges) val"
  shows "objective_of (encoded pkg n edges) val = int (card {k. k < nat n \<and> val (w_var k) = 1})"
proof -
  let ?N = "nat n"
  from assms have "\<forall>v \<in> set (map w_var [0..<?N]). val v = 0 \<or> val v = 1"
    by (auto simp: feasible_encoded_iff w_var_def)
  from lin_value_count [OF this]
  have "objective_of (encoded pkg n edges) val = int (length (filter (\<lambda>k. val (w_var k) = 1) [0..<?N]))"
    by (simp add: objective_of_def encoded_def filter_map comp_def)
  also have "length (filter (\<lambda>k. val (w_var k) = 1) [0..<?N])
      = card (set (filter (\<lambda>k. val (w_var k) = 1) [0..<?N]))"
    by (rule distinct_card [symmetric]) simp
  also have "set (filter (\<lambda>k. val (w_var k) = 1) [0..<?N]) = {k. k < ?N \<and> val (w_var k) = 1}"
    by auto
  finally show ?thesis .
qed

lemma colors_used_card:
  "colors_used N val = card {k. k < N \<and> (\<exists>i < N. val (x_var N i k) = 1)}"
proof -
  have "set (concat (map (colors_of N val) [0..<N])) = {k. k < N \<and> (\<exists>i < N. val (x_var N i k) = 1)}"
    by (auto simp: colors_of_member)
  then show ?thesis
    by (simp add: colors_used_def length_remdups_card_conv)
qed

lemma color_charged:
  assumes feas: "feasible (encoded pkg n edges) val" and idx: "edges_indexable n edges"
    and e: "e \<in> set edges" and k: "k < nat n"
    and one: "val (x_var (nat n) (vertex_of n (fst e)) k) = 1 \<or>
              val (x_var (nat n) (vertex_of n (snd e)) k) = 1"
  shows "val (w_var k) = 1"
proof -
  let ?N = "nat n"
  from idx e have lt: "vertex_of n (fst e) < ?N" "vertex_of n (snd e) < ?N"
    by (auto simp: edges_indexable_def list_all_iff vertex_of_less)
  from feas have bin: "\<And>v. v < ?N + ?N * ?N \<Longrightarrow> val v = 0 \<or> val v = 1"
    by (simp add: feasible_encoded_iff)
  from conflict_row_each [OF feas e k idx] one have "1 \<le> val (w_var k)"
    by auto
  moreover from k have "w_var k < ?N + ?N * ?N"
    by (simp add: w_var_def)
  from bin [OF this] have "val (w_var k) = 0 \<or> val (w_var k) = 1" .
  ultimately show ?thesis by auto
qed

lemma colors_used_le_objective:
  assumes feas: "feasible (encoded pkg n edges) val" and idx: "edges_indexable n edges"
    and cover: "\<forall>i < nat n. \<exists>e \<in> set edges. vertex_of n (fst e) = i \<or> vertex_of n (snd e) = i"
  shows "int (colors_used (nat n) val) \<le> objective_of (encoded pkg n edges) val"
proof -
  let ?N = "nat n"
  have "{k. k < ?N \<and> (\<exists>i < ?N. val (x_var ?N i k) = 1)} \<subseteq> {k. k < ?N \<and> val (w_var k) = 1}"
  proof clarify
    fix k i
    assume k: "k < ?N" and i: "i < ?N" and x: "val (x_var ?N i k) = 1"
    from cover i obtain e where e: "e \<in> set edges"
      and "vertex_of n (fst e) = i \<or> vertex_of n (snd e) = i"
      by blast
    with x have "val (x_var ?N (vertex_of n (fst e)) k) = 1 \<or>
              val (x_var ?N (vertex_of n (snd e)) k) = 1"
      by auto
    with feas idx e k show "val (w_var k) = 1"
      by (rule color_charged)
  qed
  then have "card {k. k < ?N \<and> (\<exists>i < ?N. val (x_var ?N i k) = 1)}
      \<le> card {k. k < ?N \<and> val (w_var k) = 1}"
    by (intro card_mono) simp_all
  then show ?thesis
    by (simp add: objective_card [OF feas] colors_used_card)
qed

lemma three_distinct_card:
  assumes "finite S" and "a \<in> S" "b \<in> S" "c \<in> S" and "a \<noteq> b" "b \<noteq> c" "a \<noteq> c"
  shows "3 \<le> card S"
proof -
  from assms have "card {a, b, c} \<le> card S"
    by (intro card_mono) simp_all
  with assms show ?thesis by simp
qed

lemma odd_cycle_three:
  fixes c0 c1 c2 c3 c4 :: nat
  assumes "c0 \<noteq> c1" "c1 \<noteq> c2" "c2 \<noteq> c3" "c3 \<noteq> c4" "c0 \<noteq> c4"
    and "finite S" and "{c0, c1, c2, c3, c4} \<subseteq> S"
  shows "3 \<le> card S"
proof (cases "c2 = c0")
  case False
  with assms show ?thesis
    by (intro three_distinct_card [of S c0 c1 c2]) auto
next
  case True
  with assms show ?thesis
    by (intro three_distinct_card [of S c0 c3 c4]) auto
qed

section \<open>The Petersen graph\<close>

lemma petersen_indexable: "edges_indexable 10 petersen_edges"
  by (simp add: edges_indexable_def petersen_edges_def indexable_def)

lemma petersen_valid: "valid_graph petersen_n petersen_edges"
  by (simp add: valid_graph_def petersen_n_def petersen_edges_def)

lemma petersen_build: "build_model pkg petersen_n petersen_edges = Inr (encoded pkg 10 petersen_edges)"
  by (simp add: build_model_eq petersen_n_def petersen_indexable)

lemma petersen_cover:
  "\<forall>i < nat 10. \<exists>e \<in> set petersen_edges. vertex_of 10 (fst e) = i \<or> vertex_of 10 (snd e) = i"
proof (intro allI impI)
  fix i :: nat
  assume "i < nat 10"
  then have "i \<in> {0, 1, 2, 3, 4, 5, 6, 7, 8, 9}"
    by auto
  then show "\<exists>e \<in> set petersen_edges. vertex_of 10 (fst e) = i \<or> vertex_of 10 (snd e) = i"
    by (auto simp: petersen_edges_def vertex_of_def)
qed

lemma petersen_edge_colors:
  assumes "feasible (encoded pkg 10 petersen_edges) val" and "e \<in> set petersen_edges"
  shows "\<exists>a b. colors_of 10 val (nat (fst e)) = [a] \<and> colors_of 10 val (nat (snd e)) = [b] \<and>
               a \<noteq> b"
proof -
  from assms(2) have v: "vertex_of 10 (fst e) = nat (fst e)" "vertex_of 10 (snd e) = nat (snd e)"
    and two: "vertex_of 10 (fst e) \<noteq> vertex_of 10 (snd e) \<or> pkg = Add_Coefficients"
    by (auto simp: petersen_edges_def vertex_of_def)
  from endpoints_differ [OF assms petersen_indexable two] v show ?thesis
    by simp
qed

lemma petersen_three_colors:
  assumes feas: "feasible (encoded pkg 10 petersen_edges) val"
  shows "3 \<le> colors_used 10 val"
proof -
  let ?U = "{k. k < 10 \<and> (\<exists>i < 10. val (x_var 10 i k) = 1)}"
  have mem: "a \<in> ?U" if "colors_of 10 val i = [a]" "i < 10" for a i
  proof -
    from that(1) have "a \<in> set (colors_of 10 val i)" by simp
    with that(2) show ?thesis by (auto simp: colors_of_member)
  qed
  have e: "(0, 1) \<in> set petersen_edges" "(1, 2) \<in> set petersen_edges"
    "(2, 3) \<in> set petersen_edges" "(3, 4) \<in> set petersen_edges" "(0, 4) \<in> set petersen_edges"
    by (simp_all add: petersen_edges_def)
  from petersen_edge_colors [OF feas e(1)] obtain c0 c1
    where c01: "colors_of 10 val 0 = [c0]" "colors_of 10 val 1 = [c1]" "c0 \<noteq> c1"
    by auto
  from petersen_edge_colors [OF feas e(2)] c01 obtain c2
    where c12: "colors_of 10 val 2 = [c2]" "c1 \<noteq> c2"
    by auto
  from petersen_edge_colors [OF feas e(3)] c12 obtain c3
    where c23: "colors_of 10 val 3 = [c3]" "c2 \<noteq> c3"
    by auto
  from petersen_edge_colors [OF feas e(4)] c23 obtain c4
    where c34: "colors_of 10 val 4 = [c4]" "c3 \<noteq> c4"
    by auto
  from petersen_edge_colors [OF feas e(5)] c01 c34 have c04: "c0 \<noteq> c4"
    by auto
  have "{c0, c1, c2, c3, c4} \<subseteq> ?U"
    using mem [OF c01(1)] mem [OF c01(2)] mem [OF c12(1)] mem [OF c23(1)] mem [OF c34(1)]
    by simp
  moreover have "finite ?U" by simp
  ultimately have "3 \<le> card ?U"
    using c01(3) c12(2) c23(2) c34(2) c04 by (intro odd_cycle_three [of c0 c1 c2 c3 c4]) 
  then show ?thesis
    by (simp add: colors_used_card)
qed

lemma petersen_bounds:
  assumes feas: "feasible (encoded pkg 10 petersen_edges) val"
  shows "3 \<le> int (colors_used 10 val) \<and>
         int (colors_used 10 val) \<le> objective_of (encoded pkg 10 petersen_edges) val"
  using petersen_three_colors [OF feas]
    colors_used_le_objective [OF feas petersen_indexable petersen_cover]
  by simp

lemma petersen_solution_feasible: "feasible (encoded pkg 10 petersen_edges) petersen_solution"
  by code_simp

lemma petersen_solution_objective:
  "objective_of (encoded pkg 10 petersen_edges) petersen_solution = 3"
  by code_simp

section \<open>Properties of the encoder\<close>

text \<open>
  Claim C1. Whenever \<open>build_model\<close> returns a model, that model contains, for every
  edge of the edge list and every color \<open>k\<close> in \<open>[0, n)\<close>, the constraint that the
  package builds from \<open>x[i][k] + x[j][k] \<le> w[k]\<close> (with the rows Python's indexing
  selects for the endpoints). When the endpoints of the edge are two different vertices,
  that constraint is the sum of both variables bounded by \<open>w[k]\<close>, and in every
  feasible solution no color of one endpoint is a color of the other; for \<open>n > 0\<close>
  each endpoint has exactly one color and the two colors differ.
\<close>

theorem conflict_constraints:
  assumes "build_model pkg n edges = Inr m" and "e \<in> set edges"
  shows "(\<forall>k < nat n.
            SumLe (var_plus pkg (x_var (nat n) (vertex_of n (fst e)) k)
                                (x_var (nat n) (vertex_of n (snd e)) k))
              (w_var k) \<in> set (constrs m)) \<and>
         (vertex_of n (fst e) \<noteq> vertex_of n (snd e) \<longrightarrow>
            (\<forall>k < nat n.
               SumLe [x_var (nat n) (vertex_of n (fst e)) k, x_var (nat n) (vertex_of n (snd e)) k]
                 (w_var k) \<in> set (constrs m)) \<and>
            (\<forall>val. feasible m val \<longrightarrow>
               (\<forall>a \<in> set (colors_of (nat n) val (vertex_of n (fst e))).
                  \<forall>b \<in> set (colors_of (nat n) val (vertex_of n (snd e))). a \<noteq> b) \<and>
               (0 < n \<longrightarrow>
                  (\<exists>a b. colors_of (nat n) val (vertex_of n (fst e)) = [a] \<and>
                         colors_of (nat n) val (vertex_of n (snd e)) = [b] \<and> a \<noteq> b))))"
proof -
  from assms(1) have m: "m = encoded pkg n edges" and idx: "0 < n \<longrightarrow> edges_indexable n edges"
    using build_model_Inr by blast+
  have rows: "\<forall>k < nat n. conflict_row pkg n k e \<in> set (constrs m)"
    using assms(2) by (simp add: m conflict_row_member)
  have plain: "\<forall>k < nat n.
      SumLe [x_var (nat n) (vertex_of n (fst e)) k, x_var (nat n) (vertex_of n (snd e)) k]
        (w_var k) \<in> set (constrs m)"
    if "vertex_of n (fst e) \<noteq> vertex_of n (snd e)"
  proof (intro allI impI)
    fix k assume k: "k < nat n"
    with that have "var_plus pkg (x_var (nat n) (vertex_of n (fst e)) k)
        (x_var (nat n) (vertex_of n (snd e)) k)
      = [x_var (nat n) (vertex_of n (fst e)) k, x_var (nat n) (vertex_of n (snd e)) k]"
      by (intro var_plus_distinct) (simp add: x_var_vertex)
    moreover from rows k have "conflict_row pkg n k e \<in> set (constrs m)"
      by blast
    ultimately show "SumLe [x_var (nat n) (vertex_of n (fst e)) k,
        x_var (nat n) (vertex_of n (snd e)) k] (w_var k) \<in> set (constrs m)"
      by (simp add: conflict_row_def)
  qed
  have apart: "\<forall>a \<in> set (colors_of (nat n) val (vertex_of n (fst e))).
               \<forall>b \<in> set (colors_of (nat n) val (vertex_of n (snd e))). a \<noteq> b"
    if "feasible m val" "vertex_of n (fst e) \<noteq> vertex_of n (snd e)" for val
    using no_shared_color [of pkg n edges val e] that assms(2)
    by (auto simp: m colors_of_member)
  have single: "\<exists>a b. colors_of (nat n) val (vertex_of n (fst e)) = [a] \<and>
                      colors_of (nat n) val (vertex_of n (snd e)) = [b] \<and> a \<noteq> b"
    if "feasible m val" "0 < n" "vertex_of n (fst e) \<noteq> vertex_of n (snd e)" for val
    using endpoints_differ [of pkg n edges val e] that assms(2) idx by (simp add: m)
  from rows plain apart single show ?thesis
    by (simp add: conflict_row_def)
qed

theorem conflict_constraints_witness:
  "build_model Keep_One 2 [(0, - 1)] = Inr (encoded Keep_One 2 [(0, - 1)]) \<and>
   feasible (encoded Keep_One 2 [(0, - 1)]) (\<lambda>v. if v \<in> set [0, 1, 2, 5] then 1 else 0) \<and>
   SumLe [2, 4] 0 \<in> set (constrs (encoded Keep_One 2 [(0, - 1)])) \<and>
   SumLe [3, 5] 1 \<in> set (constrs (encoded Keep_One 2 [(0, - 1)])) \<and>
   (\<exists>a b. colors_of 2 (\<lambda>v. if v \<in> set [0, 1, 2, 5] then 1 else 0) 0 = [a] \<and>
          colors_of 2 (\<lambda>v. if v \<in> set [0, 1, 2, 5] then 1 else 0) 1 = [b] \<and> a \<noteq> b)"
proof -
  let ?val = "\<lambda>v::nat. if v \<in> set [0, 1, 2, 5] then 1 else 0 :: int"
  have b: "build_model Keep_One 2 [(0, - 1)] = Inr (encoded Keep_One 2 [(0, - 1)])"
    by (simp add: build_model_eq edges_indexable_def indexable_def)
  have f: "feasible (encoded Keep_One 2 [(0, - 1)]) ?val"
    by code_simp
  have e: "(0, - 1) \<in> set [(0, - 1 :: int)]"
    by simp
  have v: "vertex_of 2 0 = 0" "vertex_of 2 (- 1) = 1"
    by (simp_all add: vertex_of_def)
  have k: "(0::nat) < nat 2" "(1::nat) < nat 2"
    by simp_all
  have d: "vertex_of 2 (fst (0, - 1 :: int)) \<noteq> vertex_of 2 (snd (0 :: int, - 1))"
    by (simp add: vertex_of_def)
  from conflict_constraints [OF b e] d have
    c: "\<forall>k < nat 2. SumLe [x_var (nat 2) 0 k, x_var (nat 2) 1 k] (w_var k)
           \<in> set (constrs (encoded Keep_One 2 [(0, - 1)]))"
    and g: "\<And>val. feasible (encoded Keep_One 2 [(0, - 1)]) val \<Longrightarrow>
      (\<exists>a b. colors_of (nat 2) val 0 = [a] \<and> colors_of (nat 2) val 1 = [b] \<and> a \<noteq> b)"
    by (simp_all add: v)
  from c k have "SumLe [x_var (nat 2) 0 0, x_var (nat 2) 1 0] (w_var 0)
           \<in> set (constrs (encoded Keep_One 2 [(0, - 1)]))"
    "SumLe [x_var (nat 2) 0 1, x_var (nat 2) 1 1] (w_var 1)
           \<in> set (constrs (encoded Keep_One 2 [(0, - 1)]))"
    by blast+
  then have "SumLe [2, 4] 0 \<in> set (constrs (encoded Keep_One 2 [(0, - 1)]))"
    "SumLe [3, 5] 1 \<in> set (constrs (encoded Keep_One 2 [(0, - 1)]))"
    by (simp_all add: x_var_def w_var_def)
  with b f g [OF f] show ?thesis
    by simp
qed

text \<open>
  Claim C2. Whenever \<open>build_model\<close> returns a model, that model contains, for every
  vertex \<open>i\<close> in \<open>[0, n)\<close>, the constraint that the sum of \<open>x[i][k]\<close> over all
  colors \<open>k\<close> equals 1. Consequently, in every feasible solution every vertex has
  exactly one color.
\<close>

theorem assignment_constraints:
  assumes "build_model pkg n edges = Inr m" and "i < nat n"
  shows "SumEq (map (x_var (nat n) i) [0..<nat n]) 1 \<in> set (constrs m) \<and>
         (\<forall>val. feasible m val \<longrightarrow> (\<exists>c. colors_of (nat n) val i = [c]))"
proof -
  from assms(1) have m: "m = encoded pkg n edges"
    using build_model_Inr by blast
  have "assignment_row (nat n) i \<in> set (constrs m)"
    using assms(2) by (simp add: m assignment_row_member)
  moreover have "\<exists>c. colors_of (nat n) val i = [c]" if "feasible m val" for val
    using colors_of_length [of pkg n edges val i] that assms(2) singleton_list by (simp add: m)
  ultimately show ?thesis
    by (simp add: assignment_row_def)
qed

theorem assignment_constraints_witness:
  "build_model Keep_One 2 [(0, 1)] = Inr (encoded Keep_One 2 [(0, 1)]) \<and>
   feasible (encoded Keep_One 2 [(0, 1)]) (\<lambda>v. if v \<in> set [0, 1, 3, 4] then 1 else 0) \<and>
   SumEq [4, 5] 1 \<in> set (constrs (encoded Keep_One 2 [(0, 1)])) \<and>
   (\<exists>c. colors_of 2 (\<lambda>v. if v \<in> set [0, 1, 3, 4] then 1 else 0) 1 = [c])"
proof -
  let ?val = "\<lambda>v::nat. if v \<in> set [0, 1, 3, 4] then 1 else 0 :: int"
  have b: "build_model Keep_One 2 [(0, 1)] = Inr (encoded Keep_One 2 [(0, 1)])"
    by (simp add: build_model_eq edges_indexable_def indexable_def)
  have f: "feasible (encoded Keep_One 2 [(0, 1)]) ?val"
    by code_simp
  have i: "(1::nat) < nat 2"
    by simp
  have u: "[0..<2] = [0, Suc 0]"
    by (simp add: upt_conv_Cons)
  from assignment_constraints [OF b i] f
  have "SumEq (map (x_var (nat 2) 1) [0..<nat 2]) 1 \<in> set (constrs (encoded Keep_One 2 [(0, 1)]))"
    and "\<exists>c. colors_of (nat 2) ?val 1 = [c]"
    by blast+
  with b f show ?thesis
    by (simp add: x_var_def u)
qed

text \<open>
  Claim C3. For the Petersen graph of the source (\<open>n = 10\<close> and the 15 listed edges),
  every optimal solution of the model the encoder returns has objective value 3 and
  uses exactly 3 distinct colors; every vertex has exactly one color, and the two
  endpoints of every edge have different colors.
\<close>

theorem petersen_optimal:
  assumes "build_model pkg petersen_n petersen_edges = Inr m" and "optimal m val"
  shows "objective_of m val = 3 \<and> colors_used 10 val = 3 \<and>
         (\<forall>i < 10. \<exists>c. colors_of 10 val i = [c]) \<and>
         (\<forall>e \<in> set petersen_edges.
            \<exists>a b. colors_of 10 val (nat (fst e)) = [a] \<and> colors_of 10 val (nat (snd e)) = [b] \<and>
                  a \<noteq> b)"
proof -
  from assms(1) have m: "m = encoded pkg 10 petersen_edges"
    by (simp add: petersen_build)
  from assms(2) have feas: "feasible (encoded pkg 10 petersen_edges) val"
    and least: "objective_of (encoded pkg 10 petersen_edges) val
        \<le> objective_of (encoded pkg 10 petersen_edges) petersen_solution"
    using petersen_solution_feasible by (auto simp: optimal_def m)
  from least petersen_bounds [OF feas]
  have "objective_of (encoded pkg 10 petersen_edges) val = 3" "colors_used 10 val = 3"
    by (simp_all add: petersen_solution_objective)
  moreover have "\<exists>c. colors_of 10 val i = [c]" if "i < 10" for i
    using colors_of_length [OF feas, of i] that singleton_list by simp
  ultimately show ?thesis
    using petersen_edge_colors [OF feas] by (simp add: m)
qed

theorem petersen_optimal_witness:
  "build_model Keep_One petersen_n petersen_edges = Inr (encoded Keep_One 10 petersen_edges) \<and>
   optimal (encoded Keep_One 10 petersen_edges) petersen_solution \<and>
   objective_of (encoded Keep_One 10 petersen_edges) petersen_solution = 3 \<and>
   colors_used 10 petersen_solution = 3 \<and>
   colors_of 10 petersen_solution 0 = [8] \<and>
   colors_of 10 petersen_solution 1 = [0]"
proof -
  have opt: "optimal (encoded Keep_One 10 petersen_edges) petersen_solution"
    unfolding optimal_def
  proof (intro conjI allI impI)
    show "feasible (encoded Keep_One 10 petersen_edges) petersen_solution"
      by (rule petersen_solution_feasible)
  next
    fix val'
    assume "feasible (encoded Keep_One 10 petersen_edges) val'"
    from petersen_bounds [OF this]
    show "objective_of (encoded Keep_One 10 petersen_edges) petersen_solution
        \<le> objective_of (encoded Keep_One 10 petersen_edges) val'"
      by (simp add: petersen_solution_objective)
  qed
  have c: "colors_of 10 petersen_solution 0 = [8]" "colors_of 10 petersen_solution 1 = [0]"
    by code_simp+
  from petersen_optimal [OF petersen_build opt] petersen_build opt c show ?thesis
    by simp
qed

text \<open>
  Claim C4. For every valid graph the encoder returns a model with \<open>n\<close> color
  variables and an \<open>n\<close> by \<open>n\<close> grid of assignment variables, all binary. The solution
  that gives vertex \<open>i\<close> color \<open>i\<close> is feasible, and no feasible solution uses more
  than \<open>n\<close> distinct colors.
\<close>

theorem n_coloring_feasible:
  assumes "valid_graph n edges"
  shows "\<exists>m. build_model pkg n edges = Inr m \<and>
             num_vars m = nat n + nat n * nat n \<and>
             feasible m (identity_coloring (nat n)) \<and>
             (\<forall>i < nat n. colors_of (nat n) (identity_coloring (nat n)) i = [i]) \<and>
             (\<forall>val. feasible m val \<longrightarrow> colors_used (nat n) val \<le> nat n)"
proof -
  from assms have "build_model pkg n edges = Inr (encoded pkg n edges)"
    by (simp add: build_model_eq valid_graph_indexable)
  moreover have "num_vars (encoded pkg n edges) = nat n + nat n * nat n"
    by (simp add: encoded_def)
  moreover have "\<forall>i < nat n. colors_of (nat n) (identity_coloring (nat n)) i = [i]"
    by (simp add: diagonal_colors_of diagonal_identity)
  ultimately show ?thesis
    using identity_feasible [OF assms] colors_used_le by blast
qed

theorem n_coloring_feasible_witness:
  "valid_graph 3 [(0, 1), (1, 2), (2, 0)] \<and>
   (\<exists>m. build_model Keep_One 3 [(0, 1), (1, 2), (2, 0)] = Inr m \<and> num_vars m = 12 \<and>
        feasible m (identity_coloring 3) \<and>
        (\<forall>i < 3. colors_of 3 (identity_coloring 3) i = [i]) \<and>
        (\<forall>val. feasible m val \<longrightarrow> colors_used 3 val \<le> 3))"
proof -
  have v: "valid_graph 3 [(0, 1), (1, 2), (2, 0)]"
    by (simp add: valid_graph_def)
  from n_coloring_feasible [OF v] v show ?thesis
    by simp
qed

text \<open>
  Three inputs the specification calls invalid (no vertices; a self-loop, with either
  behaviour of the package; an endpoint outside \<open>[0, n)\<close>), and the models the encoder
  returns for them.
\<close>

theorem invalid_graphs_are_encoded:
  "build_model Keep_One 0 [(0, 1)] = Inr \<lparr>num_vars = 0, objective = [], constrs = []\<rparr> \<and>
   build_model Keep_One 1 [(0, 0)] =
     Inr \<lparr>num_vars = 2, objective = [0], constrs = [SumEq [1] 1, SumLe [1] 0]\<rparr> \<and>
   build_model Add_Coefficients 1 [(0, 0)] =
     Inr \<lparr>num_vars = 2, objective = [0], constrs = [SumEq [1] 1, SumLe [1, 1] 0]\<rparr> \<and>
   build_model Keep_One 2 [(0, - 1)] =
     Inr \<lparr>num_vars = 6, objective = [0, 1],
          constrs = [SumEq [2, 3] 1, SumEq [4, 5] 1, SumLe [2, 4] 0, SumLe [3, 5] 1]\<rparr>"
  by code_simp

text \<open>
  Claim C5, amended. The function does not validate its input. For \<open>n \<le> 0\<close> the
  encoder returns the empty model, whatever the edges. For \<open>n > 0\<close> it returns a model
  whenever all endpoints lie in \<open>[-n, n)\<close>, self-loops included. For \<open>n > 0\<close> and an
  endpoint outside \<open>[-n, n)\<close> it raises IndexError while it builds the conflict
  constraints, and the function ends with that error before the solver is called.
\<close>

theorem no_input_validation:
  "(n \<le> 0 \<longrightarrow> build_model pkg n edges = Inr Model) \<and>
   (0 < n \<and> edges_indexable n edges \<longrightarrow> build_model pkg n edges = Inr (encoded pkg n edges)) \<and>
   (0 < n \<and> \<not> edges_indexable n edges \<longrightarrow>
      build_model pkg n edges = Inl IndexError \<and>
      ilp_graph_coloring pkg optimize n edges = Inl IndexError)"
  by (simp add: build_model_eq ilp_graph_coloring_def encoded_nonpositive)

theorem no_input_validation_witness:
  "build_model Keep_One (- 3) [(0, 1)] = Inr Model \<and>
   build_model Keep_One 2 [(0, - 1), (1, 1)] = Inr (encoded Keep_One 2 [(0, - 1), (1, 1)]) \<and>
   build_model Keep_One 2 [(0, 2)] = Inl IndexError \<and>
   ilp_graph_coloring Keep_One (\<lambda>m. \<lparr>status = OPTIMAL, objective_value = 0, var_x = (\<lambda>v. 0)\<rparr>)
     2 [(0, 2)] = Inl IndexError"
proof -
  have a: "edges_indexable 2 [(0, - 1), (1, 1)]" and b: "\<not> edges_indexable 2 [(0, 2)]"
    by (simp_all add: edges_indexable_def indexable_def)
  show ?thesis
    using a b no_input_validation [where n = "- 3" and edges = "[(0, 1)]" and pkg = Keep_One]
      no_input_validation [where n = 2 and edges = "[(0, - 1), (1, 1)]" and pkg = Keep_One]
      no_input_validation [where n = 2 and edges = "[(0, 2)]" and pkg = Keep_One and
        optimize = "\<lambda>m. \<lparr>status = OPTIMAL, objective_value = 0, var_x = (\<lambda>v. 0)\<rparr>"]
    by simp
qed

text \<open>
  A solver that reports \<open>INFEASIBLE\<close>: the function returns normally and prints
  nothing.
\<close>

theorem infeasible_status_is_swallowed:
  "ilp_graph_coloring Add_Coefficients (\<lambda>m. \<lparr>status = INFEASIBLE, objective_value = 0, var_x = (\<lambda>v. 0)\<rparr>)
     1 [(0, 0)] = Inr []"
  by (simp add: ilp_graph_coloring_def build_model_eq edges_indexable_def indexable_def
      print_results_def)

text \<open>
  Claim C6, amended. If the model is built and the solver returns status
  \<open>INFEASIBLE\<close>, \<open>UNBOUNDED\<close> or \<open>ERROR\<close>, the function raises no error: it returns
  normally and prints nothing, so no partial result is produced.
\<close>

theorem failure_status_silent:
  assumes "build_model pkg n edges = Inr m"
    and "status (optimize m) \<in> {INFEASIBLE, UNBOUNDED, ERROR}"
  shows "ilp_graph_coloring pkg optimize n edges = Inr []"
  using assms by (auto simp: ilp_graph_coloring_def print_results_def)

theorem failure_status_silent_witness:
  "build_model Keep_One 2 [(0, 1)] =
     Inr \<lparr>num_vars = 6, objective = [0, 1],
          constrs = [SumEq [2, 3] 1, SumEq [4, 5] 1, SumLe [2, 4] 0, SumLe [3, 5] 1]\<rparr> \<and>
   ilp_graph_coloring Keep_One (\<lambda>m. \<lparr>status = ERROR, objective_value = 0, var_x = (\<lambda>v. 0)\<rparr>)
     2 [(0, 1)] = Inr []"
proof -
  have b: "build_model Keep_One 2 [(0, 1)] =
     Inr \<lparr>num_vars = 6, objective = [0, 1],
          constrs = [SumEq [2, 3] 1, SumEq [4, 5] 1, SumLe [2, 4] 0, SumLe [3, 5] 1]\<rparr>"
    by code_simp
  show ?thesis
    using b failure_status_silent [OF b,
        of "\<lambda>m. \<lparr>status = ERROR, objective_value = 0, var_x = (\<lambda>v. 0)\<rparr>"]
    by simp
qed

text \<open>
  With status \<open>FEASIBLE\<close> nothing is printed. With status \<open>OPTIMAL\<close> and every value
  equal to 0.25, below the threshold 0.5, no error is raised and both variables are
  printed.
\<close>

theorem no_decoding_step:
  "ilp_graph_coloring Keep_One (\<lambda>m. \<lparr>status = FEASIBLE, objective_value = 1, var_x = (\<lambda>v. 1)\<rparr>)
     1 [] = Inr [] \<and>
   ilp_graph_coloring Keep_One (\<lambda>m. \<lparr>status = OPTIMAL, objective_value = 0, var_x = (\<lambda>v. 1 / 4)\<rparr>)
     1 [] = Inr [CostLine 0, VarLine 0 (1 / 4), VarLine 1 (1 / 4)]"
  by (simp add: ilp_graph_coloring_def build_model_eq edges_indexable_def
      print_results_def encoded_def)

text \<open>
  Claim C7, amended. When the model is built and the solver status is \<open>OPTIMAL\<close>, the
  function prints the objective value the solver reports and then, for each of the
  \<open>n + n * n\<close> variables in the order of their creation, the variable and its value when
  the value is not zero. It raises no error. When the status is \<open>FEASIBLE\<close> it prints
  nothing.
\<close>

theorem optimal_report:
  assumes "build_model pkg n edges = Inr m"
  shows "(status (optimize m) = OPTIMAL \<longrightarrow>
            ilp_graph_coloring pkg optimize n edges =
              Inr (CostLine (objective_value (optimize m)) #
                   map (\<lambda>v. VarLine v (var_x (optimize m) v))
                     (filter (\<lambda>v. var_x (optimize m) v \<noteq> 0) [0..<nat n + nat n * nat n]))) \<and>
         (status (optimize m) = FEASIBLE \<longrightarrow> ilp_graph_coloring pkg optimize n edges = Inr [])"
proof -
  from assms have "num_vars m = nat n + nat n * nat n"
    using build_model_Inr [of pkg n edges m] by (simp add: encoded_def)
  with assms show ?thesis
    by (simp add: ilp_graph_coloring_def print_results_def)
qed

theorem optimal_report_witness:
  "build_model Keep_One 1 [] = Inr \<lparr>num_vars = 2, objective = [0], constrs = [SumEq [1] 1]\<rparr> \<and>
   ilp_graph_coloring Keep_One
     (\<lambda>m. \<lparr>status = OPTIMAL, objective_value = 1, var_x = (\<lambda>v. if v = 0 then 0 else 1)\<rparr>) 1 [] =
     Inr [CostLine 1, VarLine 1 1] \<and>
   ilp_graph_coloring Keep_One
     (\<lambda>m. \<lparr>status = FEASIBLE, objective_value = 1, var_x = (\<lambda>v. 1)\<rparr>) 1 [] = Inr []"
proof -
  have b: "build_model Keep_One 1 [] = Inr \<lparr>num_vars = 2, objective = [0], constrs = [SumEq [1] 1]\<rparr>"
    by code_simp
  show ?thesis
    using b
      optimal_report [OF b, of "\<lambda>m. \<lparr>status = OPTIMAL, objective_value = 1,
        var_x = (\<lambda>v. if v = 0 then 0 else 1)\<rparr>"]
      optimal_report [OF b, of "\<lambda>m. \<lparr>status = FEASIBLE, objective_value = 1, var_x = (\<lambda>v. 1)\<rparr>"]
    by (simp add: upt_conv_Cons)
qed

text \<open>
  Claim C8. For every valid graph with a vertex \<open>v\<close> that is an endpoint of no edge,
  the model has a feasible solution in which \<open>v\<close> has a color \<open>k\<close> with \<open>w[k] = 0\<close>,
  and in which the objective value is strictly smaller than the number of distinct
  colors assigned.
\<close>

theorem isolated_vertex_uncharged:
  assumes "valid_graph n edges" and "0 \<le> v" and "v < n"
    and "\<forall>e \<in> set edges. fst e \<noteq> v \<and> snd e \<noteq> v"
  shows "\<exists>m val k. build_model pkg n edges = Inr m \<and> feasible m val \<and>
           k \<in> set (colors_of (nat n) val (nat v)) \<and> val (w_var k) = 0 \<and>
           objective_of m val < int (colors_used (nat n) val)"
proof -
  let ?N = "nat n" and ?val = "isolated_solution (nat n) (nat v)"
  from assms(2,3) have v: "nat v < ?N" by simp
  have iso: "\<forall>e \<in> set edges. nat (fst e) \<noteq> nat v \<and> nat (snd e) \<noteq> nat v"
  proof
    fix e assume e: "e \<in> set edges"
    with assms(1) have "0 \<le> fst e" "0 \<le> snd e"
      by (auto simp: valid_graph_def list_all_iff)
    with assms(2,4) e show "nat (fst e) \<noteq> nat v \<and> nat (snd e) \<noteq> nat v"
      by auto
  qed
  from assms(1) have "build_model pkg n edges = Inr (encoded pkg n edges)"
    by (simp add: build_model_eq valid_graph_indexable)
  moreover have "feasible (encoded pkg n edges) ?val"
    using assms(1) iso by (rule isolated_feasible)
  moreover have "nat v \<in> set (colors_of ?N ?val (nat v))"
    using v by (simp add: diagonal_colors_of diagonal_isolated)
  moreover have "?val (w_var (nat v)) = 0"
    using v by (simp add: isolated_solution_def w_var_def)
  moreover have "objective_of (encoded pkg n edges) ?val < int (colors_used ?N ?val)"
    using v by (simp add: objective_of_def encoded_def isolated_objective
        diagonal_colors_used diagonal_isolated)
  ultimately show ?thesis by blast
qed

theorem isolated_vertex_uncharged_witness:
  "valid_graph 3 [(0, 1)] \<and>
   (\<exists>m val k. build_model Keep_One 3 [(0, 1)] = Inr m \<and> feasible m val \<and>
      k \<in> set (colors_of 3 val 2) \<and> val (w_var k) = 0 \<and>
      objective_of m val < int (colors_used 3 val))"
proof -
  have v: "valid_graph 3 [(0, 1)]"
    by (simp add: valid_graph_def)
  have i: "\<forall>e \<in> set [(0, 1 :: int)]. fst e \<noteq> (2::int) \<and> snd e \<noteq> 2"
    by simp
  from isolated_vertex_uncharged [OF v _ _ i] v show ?thesis
    by simp
qed

text \<open>
  A self-loop does not always make the model infeasible, and an input with a self-loop
  can still raise. With a package that keeps one entry for a repeated variable, the
  conflict constraint of the self-loop \<open>(0, 0)\<close> is \<open>x[0][0] \<le> w[0]\<close>, and setting every
  variable to 1 is feasible. With either package, a second edge whose endpoint is no
  index of the grid raises IndexError.
\<close>

theorem self_loop_not_always_infeasible:
  "build_model Keep_One 1 [(0, 0)] =
     Inr \<lparr>num_vars = 2, objective = [0], constrs = [SumEq [1] 1, SumLe [1] 0]\<rparr> \<and>
   feasible \<lparr>num_vars = 2, objective = [0], constrs = [SumEq [1] 1, SumLe [1] 0]\<rparr> (\<lambda>v. 1) \<and>
   build_model Add_Coefficients 1 [(0, 0), (5, 5)] = Inl IndexError"
  by code_simp

text \<open>
  Claim C9, amended. For every input that contains a self-loop \<open>(i, i)\<close> with
  \<open>0 \<le> i < n\<close> and whose endpoints all lie in \<open>[-n, n)\<close>, the encoder raises no
  error and returns a model that contains, for every color \<open>k\<close>, the constraint the
  package builds from \<open>x[i][k] + x[i][k] \<le> w[k]\<close>. If the package adds the
  coefficients of a repeated variable, that constraint is \<open>2 * x[i][k] \<le> w[k]\<close> and the
  model has no feasible solution. If the package keeps one entry, the constraint is
  \<open>x[i][k] \<le> w[k]\<close> and the model is feasible: giving vertex \<open>v\<close> color \<open>v\<close> satisfies
  it.
\<close>

theorem self_loop_constraints:
  assumes "(i, i) \<in> set edges" and "0 \<le> i" and "i < n" and "edges_indexable n edges"
  shows "\<exists>m. build_model pkg n edges = Inr m \<and>
           (pkg = Add_Coefficients \<longrightarrow>
              (\<forall>k < nat n. SumLe [x_var (nat n) (nat i) k, x_var (nat n) (nat i) k] (w_var k)
                 \<in> set (constrs m)) \<and>
              (\<forall>val. \<not> feasible m val)) \<and>
           (pkg = Keep_One \<longrightarrow>
              (\<forall>k < nat n. SumLe [x_var (nat n) (nat i) k] (w_var k) \<in> set (constrs m)) \<and>
              feasible m (identity_coloring (nat n)))"
proof -
  from assms(2) have vi: "vertex_of n i = nat i"
    by (simp add: vertex_of_def)
  from assms(4) have built: "build_model pkg n edges = Inr (encoded pkg n edges)"
    by (simp add: build_model_eq)
  have rows: "\<forall>k < nat n.
      SumLe (var_plus pkg (x_var (nat n) (nat i) k) (x_var (nat n) (nat i) k)) (w_var k)
        \<in> set (constrs (encoded pkg n edges))"
    using conflict_row_member [OF assms(1), where n = n and pkg = pkg]
    by (simp add: conflict_row_def vi)
  have none: "\<not> feasible (encoded pkg n edges) val" if add: "pkg = Add_Coefficients" for val
  proof
    assume feas: "feasible (encoded pkg n edges) val"
    from assms(2,3) have "nat i < nat n" by simp
    with feas obtain c where "colors_of (nat n) val (nat i) = [c]"
      using colors_of_length singleton_list by blast
    then have "c \<in> set (colors_of (nat n) val (nat i))" by simp
    then have c: "c < nat n" "val (x_var (nat n) (nat i) c) = 1"
      by (simp_all add: colors_of_member)
    from add have "vertex_of n (fst (i, i)) \<noteq> vertex_of n (snd (i, i)) \<or> pkg = Add_Coefficients"
      by simp
    from no_shared_color [OF feas assms(1) c(1) this] c(2) show False
      by (simp add: vi)
  qed
  have some: "feasible (encoded pkg n edges) (identity_coloring (nat n))" if "pkg = Keep_One"
    using assms(4) that by (intro identity_feasible_rows) simp_all
  from built rows none some show ?thesis
    by (auto simp: var_plus_def)
qed

theorem self_loop_constraints_witness:
  "edges_indexable 2 [(0, 1), (1, 1)] \<and>
   (\<exists>m. build_model Add_Coefficients 2 [(0, 1), (1, 1)] = Inr m \<and>
      SumLe [4, 4] 0 \<in> set (constrs m) \<and> SumLe [5, 5] 1 \<in> set (constrs m) \<and>
      (\<forall>val. \<not> feasible m val)) \<and>
   (\<exists>m. build_model Keep_One 2 [(0, 1), (1, 1)] = Inr m \<and>
      SumLe [4] 0 \<in> set (constrs m) \<and> SumLe [5] 1 \<in> set (constrs m) \<and>
      feasible m (identity_coloring 2))"
proof -
  have a: "edges_indexable 2 [(0, 1), (1, 1)]"
    by (simp add: edges_indexable_def indexable_def)
  have e: "(1, 1) \<in> set [(0, 1), (1, 1 :: int)]"
    by simp
  have x: "x_var 2 (Suc 0) 0 = 4" "x_var 2 (Suc 0) (Suc 0) = 5" "w_var 0 = 0" "w_var (Suc 0) = 1"
    by (simp_all add: x_var_def w_var_def)
  have k: "(0::nat) < 2" "Suc 0 < 2"
    by simp_all
  from self_loop_constraints [OF e _ _ a, where pkg = Add_Coefficients, simplified]
  obtain m where m: "build_model Add_Coefficients 2 [(0, 1), (1, 1)] = Inr m"
    "\<forall>k<2. SumLe [x_var 2 (Suc 0) k, x_var 2 (Suc 0) k] (w_var k) \<in> set (constrs m)"
    "\<forall>val. \<not> feasible m val"
    by auto
  from m(2) k have "SumLe [x_var 2 (Suc 0) 0, x_var 2 (Suc 0) 0] (w_var 0) \<in> set (constrs m)"
    "SumLe [x_var 2 (Suc 0) (Suc 0), x_var 2 (Suc 0) (Suc 0)] (w_var (Suc 0)) \<in> set (constrs m)"
    by blast+
  then have m4: "SumLe [4, 4] 0 \<in> set (constrs m)" "SumLe [5, 5] 1 \<in> set (constrs m)"
    by (simp_all add: x)
  from self_loop_constraints [OF e _ _ a, where pkg = Keep_One, simplified]
  obtain m' where m': "build_model Keep_One 2 [(0, 1), (1, 1)] = Inr m'"
    "\<forall>k<2. SumLe [x_var 2 (Suc 0) k] (w_var k) \<in> set (constrs m')"
    "feasible m' (identity_coloring 2)"
    by auto
  from m'(2) k have "SumLe [x_var 2 (Suc 0) 0] (w_var 0) \<in> set (constrs m')"
    "SumLe [x_var 2 (Suc 0) (Suc 0)] (w_var (Suc 0)) \<in> set (constrs m')"
    by blast+
  then have m5: "SumLe [4] 0 \<in> set (constrs m')" "SumLe [5] 1 \<in> set (constrs m')"
    by (simp_all add: x)
  from a m(1,3) m4 m'(1,3) m5 show ?thesis
    by blast
qed

text \<open>
  With \<open>n = 0\<close> every endpoint is at least \<open>n\<close>, but the loop over the colors is
  empty: nothing is indexed and the empty model is returned.
\<close>

theorem no_index_error_without_vertices:
  "build_model Keep_One 0 [(5, 7)] = Inr \<lparr>num_vars = 0, objective = [], constrs = []\<rparr>"
  by code_simp

text \<open>
  Claim C10, amended. For every input with \<open>n > 0\<close> and an edge endpoint greater than
  or equal to \<open>n\<close>, the encoder raises IndexError. An endpoint \<open>i\<close> in \<open>[-n, -1]\<close>
  raises no error: indexing the grid with it selects row \<open>n + i\<close>. When \<open>n > 0\<close> and
  all endpoints lie in \<open>[-n, n)\<close>, the encoder returns the same model as for the edge
  list in which every negative endpoint \<open>i\<close> is replaced by \<open>n + i\<close>. The triangle
  of the docstring, \<^verbatim>\<open>[(1,2), (2,3), (3,1)]\<close> with \<open>n = 3\<close>, is an input of the first kind.
\<close>

theorem index_errors:
  "(0 < n \<and> (\<exists>e \<in> set edges. n \<le> fst e \<or> n \<le> snd e) \<longrightarrow>
      build_model pkg n edges = Inl IndexError) \<and>
   (length x = nat n \<and> - n \<le> i \<and> i \<le> - 1 \<longrightarrow> py_index x i = Inr (x ! nat (n + i))) \<and>
   (0 < n \<and> edges_indexable n edges \<longrightarrow>
      build_model pkg n edges = Inr (encoded pkg n edges) \<and>
      build_model pkg n (map (resolve_edge n) edges) = Inr (encoded pkg n edges))"
proof (intro conjI impI)
  assume a: "0 < n \<and> (\<exists>e \<in> set edges. n \<le> fst e \<or> n \<le> snd e)"
  then obtain e where "e \<in> set edges" "\<not> (indexable n (fst e) \<and> indexable n (snd e))"
    by (auto simp: indexable_def)
  then have "\<not> edges_indexable n edges"
    by (auto simp: edges_indexable_def list_all_iff)
  with a show "build_model pkg n edges = Inl IndexError"
    by (simp add: build_model_eq)
next
  assume "length x = nat n \<and> - n \<le> i \<and> i \<le> - 1"
  then show "py_index x i = Inr (x ! nat (n + i))"
    by (auto simp: py_index_def)
next
  assume "0 < n \<and> edges_indexable n edges"
  then show "build_model pkg n edges = Inr (encoded pkg n edges)"
    by (simp add: build_model_eq)
next
  assume "0 < n \<and> edges_indexable n edges"
  then show "build_model pkg n (map (resolve_edge n) edges) = Inr (encoded pkg n edges)"
    by (simp add: build_model_eq edges_indexable_resolve encoded_resolve)
qed

theorem index_errors_witness:
  "build_model Keep_One 3 [(1, 2), (2, 3), (3, 1)] = Inl IndexError \<and>
   py_index [[10, 11], [20, 21 :: nat]] (- 1) = Inr [20, 21] \<and>
   build_model Keep_One 2 [(0, - 1)] = Inr (encoded Keep_One 2 [(0, 1)]) \<and>
   build_model Keep_One 2 [(0, 1)] = Inr (encoded Keep_One 2 [(0, 1)])"
proof -
  have a: "edges_indexable 2 [(0, - 1)]"
    by (simp add: edges_indexable_def indexable_def)
  have e: "encoded Keep_One 2 [(0, - 1)] = encoded Keep_One 2 [(0, 1)]"
    by (simp add: encoded_def conflict_row_def vertex_of_def)
  show ?thesis
    using a e
      index_errors [where n = 3 and edges = "[(1, 2), (2, 3), (3, 1)]" and pkg = Keep_One and
        x = "[]" and i = 0]
      index_errors [where n = 2 and edges = "[]" and pkg = Keep_One and
        x = "[[10, 11], [20, 21 :: nat]]" and i = "- 1"]
      index_errors [where n = 2 and edges = "[(0, - 1)]" and pkg = Keep_One and x = "[]" and i = 0]
    by (simp add: resolve_edge_def vertex_of_def)
qed

end
